theory Spec2Isabelle
  imports Main "HOL-Library.Word" "HOL-Library.AList"
begin

section \<open>Collaborators of the exchange: tables, time, methods, bindings\<close>

text \<open>
  Modelled from the spec: \<^verbatim>\<open>amqp.Table\<close> and \<^verbatim>\<open>amqp.EquivalentTables\<close> belong to the
  \<^verbatim>\<open>amqp\<close> package, which is not among the source files. The spec only says that two
  argument tables "match"; a table is taken as its list of named fields and two tables
  match when they are equal.
\<close>

type_synonym Table = "(string \<times> string) list"

definition EquivalentTables :: "Table \<Rightarrow> Table \<Rightarrow> bool" where
  "EquivalentTables t1 t2 = (t1 = t2)"

text \<open>
  \<^verbatim>\<open>time.Time\<close> is an instant, counted in nanoseconds from the Unix epoch;
  \<^verbatim>\<open>time.Unix(sec, nsec)\<close> builds one. A \<^verbatim>\<open>time.Duration\<close> is a signed 64-bit count of
  nanoseconds. \<^verbatim>\<open>time.Now()\<close> is an input of every function that reads the clock.
\<close>

type_synonym Time = int

type_synonym Duration = "64 word"

definition time_Unix :: "int \<Rightarrow> int \<Rightarrow> Time" where
  "time_Unix sec nsec = sec * 1000000000 + nsec"

definition time_Add :: "Time \<Rightarrow> Duration \<Rightarrow> Time" where
  "time_Add t d = t + sint d"

text \<open>Go's \<^verbatim>\<open>error\<close>: \<open>None\<close> is \<^verbatim>\<open>nil\<close>. A \<^verbatim>\<open>panic\<close> is a value of its own.\<close>

datatype error = Error string

datatype panic = Panic string

text \<open>The fields of \<^verbatim>\<open>amqp.QueueBind\<close>, \<^verbatim>\<open>amqp.BasicPublish\<close> and \<^verbatim>\<open>amqp.Message\<close> that the
  exchange reads.\<close>

record QueueBind =
  qb_Queue :: string
  qb_Exchange :: string
  qb_RoutingKey :: string
  qb_Arguments :: Table

record BasicPublish =
  bp_Exchange :: string
  bp_RoutingKey :: string

record Message =
  Method :: BasicPublish

text \<open>
  Modelled from the spec: \<^verbatim>\<open>Binding\<close>, \<^verbatim>\<open>NewBinding\<close>, \<^verbatim>\<open>Equals\<close>, \<^verbatim>\<open>matchDirect\<close>,
  \<^verbatim>\<open>matchFanout\<close> and \<^verbatim>\<open>matchTopic\<close> (the binding file) are not among the source files; only
  their callers in \<^verbatim>\<open>exchange.go\<close> are. The spec: a binding is (queue name, exchange name,
  routing key pattern, argument table), immutable, with structural equality; direct
  matching is exact equality of the routing keys, fanout matching is always true, and topic
  matching splits key and pattern into dot-delimited words, where the pattern word \<^verbatim>\<open>*\<close>
  matches exactly one word and \<^verbatim>\<open>#\<close> matches zero or more words.
\<close>

record Binding =
  queueName :: string
  exchangeName :: string
  key :: string
  bindingArguments :: Table

definition NewBinding :: "string \<Rightarrow> string \<Rightarrow> string \<Rightarrow> Table \<Rightarrow> Binding" where
  "NewBinding q e k a =
     \<lparr>queueName = q, exchangeName = e, key = k, bindingArguments = a\<rparr>"

definition Equals :: "Binding \<Rightarrow> Binding \<Rightarrow> bool" where
  "Equals b1 b2 =
     (queueName b1 = queueName b2 \<and> exchangeName b1 = exchangeName b2 \<and>
      key b1 = key b2 \<and> EquivalentTables (bindingArguments b1) (bindingArguments b2))"

definition matchDirect :: "Binding \<Rightarrow> BasicPublish \<Rightarrow> bool" where
  "matchDirect b m = (key b = bp_RoutingKey m)"

definition matchFanout :: "Binding \<Rightarrow> BasicPublish \<Rightarrow> bool" where
  "matchFanout b m = True"

text \<open>Splitting at every dot, as \<^verbatim>\<open>strings.Split(s, ".")\<close> does: the empty string is one
  empty word, and a leading, trailing or doubled dot gives an empty word.\<close>

fun split_dots :: "string \<Rightarrow> string list" where
  "split_dots [] = [[]]"
| "split_dots (c # cs) =
     (if c = CHR ''.'' then [] # split_dots cs
      else (case split_dots cs of [] \<Rightarrow> [[c]] | w # ws \<Rightarrow> (c # w) # ws))"

text \<open>Joining words with dots, the inverse of the splitting; it states what the words of a
  string are.\<close>

fun join_dots :: "string list \<Rightarrow> string" where
  "join_dots [] = []"
| "join_dots [w] = w"
| "join_dots (w # v # ws) = w @ CHR ''.'' # join_dots (v # ws)"

text \<open>Pattern words against key words, left to right; at \<^verbatim>\<open>#\<close> either the hash is done
  (it has matched the words skipped so far) or it takes one more key word.\<close>

fun words_match :: "string list \<Rightarrow> string list \<Rightarrow> bool" where
  "words_match [] [] = True"
| "words_match [] (w # ws) = False"
| "words_match (p # ps) [] = (p = ''#'' \<and> words_match ps [])"
| "words_match (p # ps) (w # ws) =
     (if p = ''#'' then words_match ps (w # ws) \<or> words_match (p # ps) ws
      else (p = ''*'' \<or> p = w) \<and> words_match ps ws)"

definition matchTopic :: "Binding \<Rightarrow> BasicPublish \<Rightarrow> bool" where
  "matchTopic b m = words_match (split_dots (key b)) (split_dots (bp_RoutingKey m))"

section \<open>The exchange (exchange.go)\<close>

type_synonym extype = "8 word"

definition EX_TYPE_DIRECT :: extype where "EX_TYPE_DIRECT = 1"

definition EX_TYPE_FANOUT :: extype where "EX_TYPE_FANOUT = 2"

definition EX_TYPE_TOPIC :: extype where "EX_TYPE_TOPIC = 3"

definition EX_TYPE_HEADERS :: extype where "EX_TYPE_HEADERS = 4"

text \<open>
  The struct \<^verbatim>\<open>Exchange\<close>. The slice of binding pointers is a list of bindings (a binding
  is never mutated). \<^verbatim>\<open>deleteChan\<close> holds what has been sent on the channel so far: the
  exchange sends itself, recorded by its name. \<open>timeoutsStarted\<close> counts the executions
  of \<^verbatim>\<open>go exchange.autodeleteTimeout()\<close>. The mutex, the unused \<^verbatim>\<open>incoming\<close> channel and
  the message store carry no data of the functions below.
\<close>

record Exchange =
  name :: string
  extype :: extype
  durable :: bool
  autodelete :: bool
  internal :: bool
  arguments :: Table
  system :: bool
  bindings :: "Binding list"
  closed :: bool
  deleteActive :: Time
  deleteChan :: "string list"
  timeoutsStarted :: nat

definition close :: "Exchange \<Rightarrow> Exchange" where
  "close exchange = exchange\<lparr>closed := True\<rparr>"

definition equivalentExchanges :: "Exchange \<Rightarrow> Exchange \<Rightarrow> bool" where
  "equivalentExchanges ex1 ex2 =
     (if name ex1 \<noteq> name ex2 then False
      else if extype ex1 \<noteq> extype ex2 then False
      else if durable ex1 \<noteq> durable ex2 then False
      else if internal ex1 \<noteq> internal ex2 then False
      else if \<not> EquivalentTables (arguments ex1) (arguments ex2) then False
      else True)"

text \<open>
  The result of \<^verbatim>\<open>queuesForPublish\<close> is a Go map from queue name to \<^verbatim>\<open>bool\<close>, kept as an
  association list: \<open>map_of\<close> is the lookup \<^verbatim>\<open>queues[k]\<close> and \<open>AList.update\<close> the store
  \<^verbatim>\<open>queues[k] = true\<close>. The three loops of the source differ only in the match predicate.
\<close>

fun queues_loop ::
  "(Binding \<Rightarrow> BasicPublish \<Rightarrow> bool) \<Rightarrow> BasicPublish \<Rightarrow> Binding list \<Rightarrow>
   (string \<times> bool) list \<Rightarrow> (string \<times> bool) list" where
  "queues_loop matches m [] queues = queues"
| "queues_loop matches m (binding # rest) queues =
     (if matches binding m then
        (case map_of queues (queueName binding) of
           Some seen \<Rightarrow> queues_loop matches m rest queues
         | None \<Rightarrow>
             queues_loop matches m rest (AList.update (queueName binding) True queues))
      else queues_loop matches m rest queues)"

definition queuesForPublish :: "Exchange \<Rightarrow> Message \<Rightarrow> panic + (string \<times> bool) list" where
  "queuesForPublish exchange msg =
     (if extype exchange = EX_TYPE_DIRECT then
        Inr (queues_loop matchDirect (Method msg) (bindings exchange) [])
      else if extype exchange = EX_TYPE_FANOUT then
        Inr (queues_loop matchFanout (Method msg) (bindings exchange) [])
      else if extype exchange = EX_TYPE_TOPIC then
        Inr (queues_loop matchTopic (Method msg) (bindings exchange) [])
      else if extype exchange = EX_TYPE_HEADERS then
        Inl (Panic ''Headers is not implemented!'')
      else Inl (Panic ''unknown exchange type!''))"

definition addBinding ::
  "QueueBind \<Rightarrow> 64 word \<Rightarrow> bool \<Rightarrow> Exchange \<Rightarrow> error option \<times> Exchange" where
  "addBinding method connId fromDisk exchange =
     (let binding = NewBinding (qb_Queue method) (qb_Exchange method)
                      (qb_RoutingKey method) (qb_Arguments method)
      in if list_ex (\<lambda>b. Equals binding b) (bindings exchange) then (None, exchange)
         else
           (let exchange1 =
                  (if autodelete exchange
                   then exchange\<lparr>deleteActive := time_Unix 0 0\<rparr> else exchange)
            in (None, exchange1\<lparr>bindings := bindings exchange1 @ [binding]\<rparr>)))"

definition bindingsForQueue :: "string \<Rightarrow> Exchange \<Rightarrow> Binding list" where
  "bindingsForQueue q exchange = filter (\<lambda>b. queueName b = q) (bindings exchange)"

definition removeBindingsForQueue :: "string \<Rightarrow> Exchange \<Rightarrow> Exchange" where
  "removeBindingsForQueue q exchange =
     exchange\<lparr>bindings := filter (\<lambda>b. queueName b \<noteq> q) (bindings exchange)\<rparr>"

text \<open>The index at which the loop of \<^verbatim>\<open>removeBinding\<close> stops: the first stored binding
  that the given one equals.\<close>

fun firstEqual :: "Binding \<Rightarrow> Binding list \<Rightarrow> nat option" where
  "firstEqual binding [] = None"
| "firstEqual binding (b # bs) =
     (if Equals binding b then Some 0 else map_option Suc (firstEqual binding bs))"

text \<open>The queue argument of \<^verbatim>\<open>removeBinding\<close> is not read.\<close>

definition removeBinding :: "'q \<Rightarrow> Binding \<Rightarrow> Exchange \<Rightarrow> error option \<times> Exchange" where
  "removeBinding queue binding exchange =
     (case firstEqual binding (bindings exchange) of
        None \<Rightarrow> (None, exchange)
      | Some i \<Rightarrow>
          (let exchange1 =
                 exchange\<lparr>bindings :=
                   take i (bindings exchange) @ drop (i + 1) (bindings exchange)\<rparr>
           in if autodelete exchange1 \<and> length (bindings exchange1) = 0
              then (None, exchange1\<lparr>timeoutsStarted := timeoutsStarted exchange1 + 1\<rparr>)
              else (None, exchange1)))"

text \<open>
  \<^verbatim>\<open>autodeleteTimeout\<close> runs in a goroutine of its own: it stores the clock reading
  \<open>now\<close>, sleeps five seconds, and compares. \<open>sleep\<close> is what the other goroutines do
  to the exchange while this one sleeps.
\<close>

definition autodeleteTimeout :: "Time \<Rightarrow> (Exchange \<Rightarrow> Exchange) \<Rightarrow> Exchange \<Rightarrow> Exchange" where
  "autodeleteTimeout now sleep exchange =
     (let exchange1 = exchange\<lparr>deleteActive := now\<rparr>;
          exchange2 = sleep exchange1
      in if deleteActive exchange2 = now
         then exchange2\<lparr>deleteChan := deleteChan exchange2 @ [name exchange2]\<rparr>
         else exchange2)"

section \<open>The connection (connection.go)\<close>

text \<open>A wire frame: type, channel id and payload bytes.\<close>

record WireFrame =
  FrameType :: "8 word"
  Channel :: "16 word"
  Payload :: "8 word list"

text \<open>
  Modelled from the spec: \<^verbatim>\<open>Channel\<close>, \<^verbatim>\<open>NewChannel\<close> and the channel's \<^verbatim>\<open>start\<close> (the
  channel file) are not among the source files. The spec: a channel has an id unique within
  its connection and an inbound frame queue, is created lazily and then started.
  \<open>incoming\<close> holds the frames sent to the channel so far, oldest first.
\<close>

record ChannelState =
  channel_id :: "16 word"
  incoming :: "WireFrame list"
  started :: bool

definition NewChannel :: "16 word \<Rightarrow> ChannelState" where
  "NewChannel i = \<lparr>channel_id = i, incoming = [], started = False\<rparr>"

definition channel_start :: "ChannelState \<Rightarrow> ChannelState" where
  "channel_start ch = ch\<lparr>started := True\<rparr>"

text \<open>
  The \<^verbatim>\<open>net.Conn\<close> of the connection: the bytes the peer has sent and the server has not
  read yet, in the pieces in which the stream delivers them (oldest first), the bytes
  written to the peer, and whether the stream is closed. A \<^verbatim>\<open>Read\<close> into a buffer of
  \<open>n\<close> bytes fails on a closed or exhausted stream; otherwise it returns bytes of the
  first piece only, at most \<open>n\<close> of them, and what it leaves of that piece stays first
  in the stream. So a \<^verbatim>\<open>Read\<close> may return fewer bytes than the buffer holds, as
  \<^verbatim>\<open>io.Reader\<close> allows.
\<close>

record Network =
  inbound :: "8 word list list"
  outbound :: "8 word list"
  net_closed :: bool

definition network_Read :: "nat \<Rightarrow> Network \<Rightarrow> (error + 8 word list) \<times> Network" where
  "network_Read n net =
     (if net_closed net then (Inl (Error ''closed''), net)
      else (case inbound net of
              [] \<Rightarrow> (Inl (Error ''EOF''), net)
            | piece # rest \<Rightarrow>
                (Inr (take n piece),
                 net\<lparr>inbound := (if drop n piece = [] then rest else drop n piece # rest)\<rparr>)))"

text \<open>
  Modelled from the spec: \<^verbatim>\<open>amqp.ReadFrame\<close> (the frame decoder of the \<^verbatim>\<open>amqp\<close> package) is
  not among the source files. The spec treats it as a serializer that consumes bytes of the
  stream and yields a frame or an error; its byte layout is the parameter \<open>decode\<close>, from
  the unread pieces to the outcome and the pieces left. It reads the same stream as every
  other read of the connection, only reads, and fails on a closed stream.
\<close>

definition ReadFrame ::
  "(8 word list list \<Rightarrow> (error + WireFrame) \<times> 8 word list list) \<Rightarrow> Network \<Rightarrow>
   (error + WireFrame) \<times> Network" where
  "ReadFrame decode net =
     (if net_closed net then (Inl (Error ''closed''), net)
      else (case decode (inbound net) of (r, rest) \<Rightarrow> (r, net\<lparr>inbound := rest\<rparr>)))"

definition network_Write :: "8 word list \<Rightarrow> Network \<Rightarrow> Network" where
  "network_Write bs net =
     (if net_closed net then net else net\<lparr>outbound := outbound net @ bs\<rparr>)"

definition network_Close :: "Network \<Rightarrow> Network" where
  "network_Close net = net\<lparr>net_closed := True\<rparr>"

record ConnectStatus =
  start :: bool
  startOk :: bool
  secure :: bool
  secureOk :: bool
  tune :: bool
  tuneOk :: bool
  status_open :: bool
  openOk :: bool
  closing :: bool
  status_closed :: bool

text \<open>
  The struct \<^verbatim>\<open>AMQPConnection\<close>. \<open>channels\<close> is the Go map from channel id to channel;
  a channel is reached only through this map, so a send on its \<^verbatim>\<open>incoming\<close> queue is
  an update of the entry. \<open>outgoingStarted\<close> records that \<^verbatim>\<open>handleOutgoing\<close> has started
  its writer goroutine. The context, the server, the mutex, the client properties and the
  statistics carry no data of the functions below.
\<close>

record AMQPConnection =
  conn_id :: "64 word"
  nextChannel :: int
  channels :: "16 word \<Rightarrow> ChannelState option"
  outgoing :: "WireFrame list"
  connectStatus :: ConnectStatus
  network :: Network
  ttl :: Time
  sendHeartbeatInterval :: Duration
  receiveHeartbeatInterval :: Duration
  maxChannels :: "16 word"
  maxFrameSize :: "32 word"
  outgoingStarted :: bool

text \<open>
  \<^verbatim>\<open>NewAMQPConnection\<close>; the id is what \<^verbatim>\<open>util.NextId()\<close> returned. The fields the literal
  leaves out have Go's zero values; the zero \<^verbatim>\<open>time.Time\<close> is the first instant of year 1.
  Ten seconds are \<open>10000000000\<close> nanoseconds.
\<close>

definition time_zero :: Time where
  "time_zero = time_Unix (- 62135596800) 0"

definition NewAMQPConnection :: "64 word \<Rightarrow> Network \<Rightarrow> AMQPConnection" where
  "NewAMQPConnection nextId net =
     \<lparr>conn_id = nextId, nextChannel = 0, channels = Map.empty, outgoing = [],
      connectStatus =
        \<lparr>start = False, startOk = False, secure = False, secureOk = False, tune = False,
         tuneOk = False, status_open = False, openOk = False, closing = False,
         status_closed = False\<rparr>,
      network = net, ttl = time_zero, sendHeartbeatInterval = 0,
      receiveHeartbeatInterval = 10000000000, maxChannels = 4096, maxFrameSize = 65536,
      outgoingStarted = False\<rparr>"

definition hardClose :: "AMQPConnection \<Rightarrow> AMQPConnection" where
  "hardClose conn = conn\<lparr>network := network_Close (network conn)\<rparr>"

definition handleOutgoing :: "AMQPConnection \<Rightarrow> AMQPConnection" where
  "handleOutgoing conn = conn\<lparr>outgoingStarted := True\<rparr>"

text \<open>\<^verbatim>\<open>handleFrame\<close>; \<open>now\<close> is the clock reading of its \<^verbatim>\<open>time.Now()\<close>.\<close>

definition handleFrame :: "Time \<Rightarrow> WireFrame \<Rightarrow> AMQPConnection \<Rightarrow> AMQPConnection" where
  "handleFrame now frame conn =
     (let conn1 = conn\<lparr>ttl := time_Add now (receiveHeartbeatInterval conn * 2)\<rparr>
      in if FrameType frame = 8 then conn1
         else if \<not> status_open (connectStatus conn1) \<and> Channel frame \<noteq> 0
         then hardClose conn1
         else
           (case channels conn1 (Channel frame) of
              Some channel \<Rightarrow>
                conn1\<lparr>channels := (channels conn1)
                  (Channel frame \<mapsto> channel\<lparr>incoming := incoming channel @ [frame]\<rparr>)\<rparr>
            | None \<Rightarrow>
                (let channel = channel_start (NewChannel (Channel frame))
                 in conn1\<lparr>channels := (channels conn1)
                      (Channel frame \<mapsto> channel\<lparr>incoming := incoming channel @ [frame]\<rparr>)\<rparr>)))"

text \<open>
  \<^verbatim>\<open>handleIncoming\<close> reads frames from the connection's stream until the connection is
  closed or a read fails. \<open>nows\<close> are the clock readings of the calls of
  \<^verbatim>\<open>handleFrame\<close>, one for each frame read; the result is \<open>None\<close> when a frame is read
  and no clock reading is left for it, that is, when the loop runs on beyond the readings
  given.
\<close>

fun handleIncoming ::
  "(8 word list list \<Rightarrow> (error + WireFrame) \<times> 8 word list list) \<Rightarrow> Time list \<Rightarrow>
   AMQPConnection \<Rightarrow> AMQPConnection option" where
  "handleIncoming decode [] conn =
     (if status_closed (connectStatus conn) then Some conn
      else (case ReadFrame decode (network conn) of
              (Inl err, net) \<Rightarrow> Some (hardClose (conn\<lparr>network := net\<rparr>))
            | (Inr frame, net) \<Rightarrow> None))"
| "handleIncoming decode (now # rest) conn =
     (if status_closed (connectStatus conn) then Some conn
      else (case ReadFrame decode (network conn) of
              (Inl err, net) \<Rightarrow> Some (hardClose (conn\<lparr>network := net\<rparr>))
            | (Inr frame, net) \<Rightarrow>
                handleIncoming decode rest (handleFrame now frame (conn\<lparr>network := net\<rparr>))))"

definition supported :: "8 word list" where
  "supported = [65, 77, 81, 80, 0, 0, 9, 1]"

text \<open>\<^verbatim>\<open>openConnection\<close>: the buffer of eight zero bytes receives what the one \<^verbatim>\<open>Read\<close>
  returns; the number of bytes read is not looked at.\<close>

definition openConnection ::
  "(8 word list list \<Rightarrow> (error + WireFrame) \<times> 8 word list list) \<Rightarrow> Time list \<Rightarrow>
   AMQPConnection \<Rightarrow> AMQPConnection option" where
  "openConnection decode nows conn =
     (case network_Read 8 (network conn) of
        (Inl err, net) \<Rightarrow> Some (hardClose (conn\<lparr>network := net\<rparr>))
      | (Inr bytes, net) \<Rightarrow>
          (let buf = bytes @ replicate (8 - length bytes) 0;
               conn1 = conn\<lparr>network := net\<rparr>
           in if buf \<noteq> supported
              then Some (hardClose
                     (conn1\<lparr>network := network_Write supported (network conn1)\<rparr>))
              else
                (let conn2 = conn1\<lparr>channels := (channels conn1)(0 \<mapsto> NewChannel 0)\<rparr>;
                     conn3 = conn2\<lparr>channels := (channels conn2)
                               (0 \<mapsto> channel_start (NewChannel 0))\<rparr>
                 in handleIncoming decode nows (handleOutgoing conn3))))"

section \<open>Equivalence of exchange declarations\<close>

text \<open>
  C4. \<^verbatim>\<open>equivalentExchanges\<close> is true exactly when the two exchanges agree on name, type,
  durable flag, internal flag and argument table. The auto-delete flag is not read: changing
  it on either side does not change the answer, and an exchange is equivalent to itself
  with any other auto-delete flag.
\<close>

theorem equivalentExchanges_iff:
  "equivalentExchanges ex1 ex2 =
     (name ex1 = name ex2 \<and> extype ex1 = extype ex2 \<and> durable ex1 = durable ex2 \<and>
      internal ex1 = internal ex2 \<and> EquivalentTables (arguments ex1) (arguments ex2))
   \<and> EquivalentTables (arguments ex1) (arguments ex2) = (arguments ex1 = arguments ex2)
   \<and> equivalentExchanges (ex1\<lparr>autodelete := a1\<rparr>) (ex2\<lparr>autodelete := a2\<rparr>) =
       equivalentExchanges ex1 ex2
   \<and> equivalentExchanges ex1 (ex1\<lparr>autodelete := a2\<rparr>)"
  by (simp add: equivalentExchanges_def EquivalentTables_def)

section \<open>Routing on a direct exchange\<close>

lemma Equals_iff: "Equals b1 b2 = (b1 = b2)"
  by (cases b1, cases b2) (auto simp: Equals_def EquivalentTables_def)

lemma queues_loop_keys:
  "fst ` set (queues_loop matches m bs queues) =
     fst ` set queues \<union> {queueName b | b. b \<in> set bs \<and> matches b m}"
proof (induction bs arbitrary: queues)
  case Nil
  then show ?case by simp
next
  case (Cons b bs)
  show ?case
  proof (cases "matches b m")
    case False
    then show ?thesis using Cons.IH [of queues] by auto
  next
    case True
    show ?thesis
    proof (cases "map_of queues (queueName b)")
      case None
      have "fst ` set (AList.update (queueName b) True queues) =
              insert (queueName b) (fst ` set queues)"
        by (simp add: AList.dom_update)
      then show ?thesis
        using True None Cons.IH [of "AList.update (queueName b) True queues"] by auto
    next
      case (Some seen)
      then have "queueName b \<in> fst ` set queues"
        by (force dest!: map_of_SomeD simp: image_iff)
      then show ?thesis using True Some Cons.IH [of queues] by auto
    qed
  qed
qed

lemma queues_loop_distinct:
  "distinct (map fst queues) \<Longrightarrow> distinct (map fst (queues_loop matches m bs queues))"
  by (induction bs arbitrary: queues) (auto simp: distinct_update split: option.splits)

lemma set_update_subset: "set (AList.update k v al) \<subseteq> insert (k, v) (set al)"
  by (induction al) auto

lemma queues_loop_values:
  "\<forall>e \<in> set queues. snd e = True \<Longrightarrow>
   \<forall>e \<in> set (queues_loop matches m bs queues). snd e = True"
proof (induction bs arbitrary: queues)
  case Nil
  then show ?case by simp
next
  case (Cons b bs)
  have "\<forall>e \<in> set (AList.update (queueName b) True queues). snd e = True"
    using Cons.prems set_update_subset [of "queueName b" True queues] by auto
  then show ?case using Cons by (auto split: option.splits)
qed

lemma count_key_distinct:
  "distinct (map fst xs) \<Longrightarrow>
   length (filter (\<lambda>e. fst e = q) xs) = (if q \<in> fst ` set xs then 1 else 0)"
  by (induction xs) (auto simp: image_iff)

text \<open>
  C1. On a direct exchange \<^verbatim>\<open>queuesForPublish\<close> returns a map, and a queue name is a key of
  it exactly when some binding of the exchange has that queue name and a routing key equal,
  character for character, to the routing key of the published message. Every key is stored
  once, however many bindings match it, and its value is \<^verbatim>\<open>true\<close>.
\<close>

theorem queuesForPublish_direct:
  assumes "extype exchange = EX_TYPE_DIRECT"
  shows "\<exists>queues. queuesForPublish exchange msg = Inr queues \<and>
           distinct (map fst queues) \<and>
           (\<forall>q. (q \<in> fst ` set queues) =
                 (\<exists>b. b \<in> set (bindings exchange) \<and> queueName b = q \<and>
                      key b = bp_RoutingKey (Method msg))) \<and>
           (\<forall>q. length (filter (\<lambda>e. fst e = q) queues) =
                 (if \<exists>b. b \<in> set (bindings exchange) \<and> queueName b = q \<and>
                      key b = bp_RoutingKey (Method msg) then 1 else 0)) \<and>
           (\<forall>q. (map_of queues q = Some True) =
                 (\<exists>b. b \<in> set (bindings exchange) \<and> queueName b = q \<and>
                      key b = bp_RoutingKey (Method msg)))"
proof -
  define queues where "queues = queues_loop matchDirect (Method msg) (bindings exchange) []"
  have res: "queuesForPublish exchange msg = Inr queues"
    using assms by (simp add: queuesForPublish_def queues_def)
  have d: "distinct (map fst queues)"
    unfolding queues_def by (rule queues_loop_distinct) simp
  have k: "(q \<in> fst ` set queues) =
             (\<exists>b. b \<in> set (bindings exchange) \<and> queueName b = q \<and>
                  key b = bp_RoutingKey (Method msg))" for q
    unfolding queues_def queues_loop_keys by (auto simp: matchDirect_def)
  have c: "length (filter (\<lambda>e. fst e = q) queues) =
             (if \<exists>b. b \<in> set (bindings exchange) \<and> queueName b = q \<and>
                  key b = bp_RoutingKey (Method msg) then 1 else 0)" for q
    using count_key_distinct [OF d, of q] k [of q] by simp
  have v: "\<forall>e \<in> set queues. snd e = True"
    unfolding queues_def by (rule queues_loop_values) simp
  have m: "(map_of queues q = Some True) =
             (\<exists>b. b \<in> set (bindings exchange) \<and> queueName b = q \<and>
                  key b = bp_RoutingKey (Method msg))" for q
  proof -
    have "(map_of queues q = Some True) = (q \<in> fst ` set queues)"
    proof
      assume "map_of queues q = Some True"
      then show "q \<in> fst ` set queues"
        by (force dest!: map_of_SomeD simp: image_iff)
    next
      assume "q \<in> fst ` set queues"
      then obtain v where "map_of queues q = Some v"
        by (metis domD dom_map_of_conv_image_fst)
      moreover from this have "(q, v) \<in> set queues" by (rule map_of_SomeD)
      ultimately show "map_of queues q = Some True" using v by auto
    qed
    then show ?thesis using k [of q] by simp
  qed
  show ?thesis using res d k c m by blast
qed

theorem queuesForPublish_direct_witness:
  "extype \<lparr>name = ''ex-1'', extype = 1, durable = False, autodelete = False,
            internal = False, arguments = [], system = False,
            bindings = [NewBinding ''q-1'' ''ex-1'' ''x.y'' [],
                        NewBinding ''q-1'' ''ex-1'' ''x.y'' [(''a'', ''1'')],
                        NewBinding ''q-2'' ''ex-1'' ''x.z'' []],
            closed = False, deleteActive = 0, deleteChan = [], timeoutsStarted = 0\<rparr>
     = EX_TYPE_DIRECT \<and>
   queuesForPublish
     \<lparr>name = ''ex-1'', extype = 1, durable = False, autodelete = False,
      internal = False, arguments = [], system = False,
      bindings = [NewBinding ''q-1'' ''ex-1'' ''x.y'' [],
                  NewBinding ''q-1'' ''ex-1'' ''x.y'' [(''a'', ''1'')],
                  NewBinding ''q-2'' ''ex-1'' ''x.z'' []],
      closed = False, deleteActive = 0, deleteChan = [], timeoutsStarted = 0\<rparr>
     \<lparr>Method = \<lparr>bp_Exchange = ''ex-1'', bp_RoutingKey = ''x.y''\<rparr>\<rparr>
     = Inr [(''q-1'', True)]"
  using queuesForPublish_direct
    [of "\<lparr>name = ''ex-1'', extype = 1, durable = False, autodelete = False,
      internal = False, arguments = [], system = False,
      bindings = [NewBinding ''q-1'' ''ex-1'' ''x.y'' [],
                  NewBinding ''q-1'' ''ex-1'' ''x.y'' [(''a'', ''1'')],
                  NewBinding ''q-2'' ''ex-1'' ''x.z'' []],
      closed = False, deleteActive = 0, deleteChan = [], timeoutsStarted = 0\<rparr>"
     "\<lparr>Method = \<lparr>bp_Exchange = ''ex-1'', bp_RoutingKey = ''x.y''\<rparr>\<rparr>"]
  by (simp add: queuesForPublish_def EX_TYPE_DIRECT_def matchDirect_def NewBinding_def)

section \<open>Topic matching\<close>

lemma words_match_hash_nil: "words_match [''#''] ws"
  by (induction ws) auto

lemma words_match_star:
  "words_match (''*'' # ps) ws = (\<exists>w ws'. ws = w # ws' \<and> words_match ps ws')"
  by (cases ws) auto

lemma words_match_hash:
  "words_match (''#'' # ps) ws = (\<exists>us vs. ws = us @ vs \<and> words_match ps vs)"
proof (induction ws)
  case Nil
  then show ?case by simp
next
  case (Cons w ws)
  show ?case
  proof
    assume "words_match (''#'' # ps) (w # ws)"
    then consider "words_match ps (w # ws)" | "words_match (''#'' # ps) ws" by auto
    then show "\<exists>us vs. w # ws = us @ vs \<and> words_match ps vs"
    proof cases
      case 1
      then have "w # ws = [] @ (w # ws) \<and> words_match ps (w # ws)" by simp
      then show ?thesis by blast
    next
      case 2
      then obtain us vs where "ws = us @ vs" "words_match ps vs" using Cons.IH by auto
      then have "w # ws = (w # us) @ vs \<and> words_match ps vs" by simp
      then show ?thesis by blast
    qed
  next
    assume "\<exists>us vs. w # ws = us @ vs \<and> words_match ps vs"
    then obtain us vs where uv: "w # ws = us @ vs" "words_match ps vs" by auto
    show "words_match (''#'' # ps) (w # ws)"
    proof (cases us)
      case Nil
      then have "words_match ps (w # ws)" using uv by simp
      then show ?thesis by simp
    next
      case (Cons u us')
      then have "ws = us' @ vs" using uv by simp
      then have "words_match (''#'' # ps) ws" using Cons.IH uv(2) by auto
      then show ?thesis by simp
    qed
  qed
qed

lemma words_match_literal:
  "p \<noteq> ''#'' \<Longrightarrow> p \<noteq> ''*'' \<Longrightarrow>
   words_match (p # ps) ws = (\<exists>ws'. ws = p # ws' \<and> words_match ps ws')"
  by (cases ws) auto

lemma split_dots_not_Nil: "split_dots s \<noteq> []"
  by (induction s) (auto split: list.splits)

lemma join_split_dots: "join_dots (split_dots s) = s"
proof (induction s)
  case Nil
  then show ?case by simp
next
  case (Cons c cs)
  obtain w ws where sp: "split_dots cs = w # ws"
    using split_dots_not_Nil [of cs] by (cases "split_dots cs") auto
  show ?case
  proof (cases "c = CHR ''.''")
    case True
    then show ?thesis using Cons sp by simp
  next
    case False
    then show ?thesis using Cons sp by (cases ws) auto
  qed
qed

lemma split_dots_no_dot: "list_all (\<lambda>w. CHR ''.'' \<notin> set w) (split_dots s)"
  by (induction s) (auto split: list.splits)

lemma words_match_Nil: "words_match [] ws = (ws = [])"
  by (cases ws) auto

text \<open>
  C2. Topic matching compares the dot-delimited words of the binding's pattern with those
  of the routing key: the words of a string are what joining with dots gives the string back
  from, and none contains a dot. The pattern word \<^verbatim>\<open>#\<close> matches any run of words, also the
  empty one, \<^verbatim>\<open>*\<close> matches exactly one word, any other pattern word matches itself only.
  So \<^verbatim>\<open>a.*.c\<close> matches \<^verbatim>\<open>a.b.c\<close> and not \<^verbatim>\<open>a.b.b.c\<close>; \<^verbatim>\<open>a.#\<close> matches \<^verbatim>\<open>a\<close>, \<^verbatim>\<open>a.b\<close>
  and \<^verbatim>\<open>a.b.c\<close>; and \<^verbatim>\<open>#\<close> matches every routing key, the empty one too.
\<close>

theorem matchTopic_words:
  "matchTopic b m = words_match (split_dots (key b)) (split_dots (bp_RoutingKey m))
   \<and> join_dots (split_dots s) = s
   \<and> list_all (\<lambda>w. CHR ''.'' \<notin> set w) (split_dots s)
   \<and> words_match [] ws = (ws = [])
   \<and> words_match (p # ps) ws =
       (if p = ''#'' then \<exists>us vs. ws = us @ vs \<and> words_match ps vs
        else if p = ''*'' then \<exists>w ws'. ws = w # ws' \<and> words_match ps ws'
        else \<exists>ws'. ws = p # ws' \<and> words_match ps ws')
   \<and> matchTopic (b\<lparr>key := ''a.*.c''\<rparr>) (m\<lparr>bp_RoutingKey := ''a.b.c''\<rparr>)
   \<and> \<not> matchTopic (b\<lparr>key := ''a.*.c''\<rparr>) (m\<lparr>bp_RoutingKey := ''a.b.b.c''\<rparr>)
   \<and> matchTopic (b\<lparr>key := ''a.#''\<rparr>) (m\<lparr>bp_RoutingKey := ''a''\<rparr>)
   \<and> matchTopic (b\<lparr>key := ''a.#''\<rparr>) (m\<lparr>bp_RoutingKey := ''a.b''\<rparr>)
   \<and> matchTopic (b\<lparr>key := ''a.#''\<rparr>) (m\<lparr>bp_RoutingKey := ''a.b.c''\<rparr>)
   \<and> matchTopic (b\<lparr>key := ''#''\<rparr>) m
   \<and> matchTopic (b\<lparr>key := ''#''\<rparr>) (m\<lparr>bp_RoutingKey := ''''\<rparr>)"
proof -
  have w: "words_match (p # ps) ws =
       (if p = ''#'' then \<exists>us vs. ws = us @ vs \<and> words_match ps vs
        else if p = ''*'' then \<exists>w ws'. ws = w # ws' \<and> words_match ps ws'
        else \<exists>ws'. ws = p # ws' \<and> words_match ps ws')"
    using words_match_hash [of ps ws] words_match_star [of ps ws]
      words_match_literal [of p ps ws] by simp
  have e1: "matchTopic (b\<lparr>key := ''a.*.c''\<rparr>) (m\<lparr>bp_RoutingKey := ''a.b.c''\<rparr>)"
    by (simp add: matchTopic_def)
  have e2: "\<not> matchTopic (b\<lparr>key := ''a.*.c''\<rparr>) (m\<lparr>bp_RoutingKey := ''a.b.b.c''\<rparr>)"
    by (simp add: matchTopic_def)
  have e3: "matchTopic (b\<lparr>key := ''a.#''\<rparr>) (m\<lparr>bp_RoutingKey := ''a''\<rparr>)"
    by (simp add: matchTopic_def)
  have e4: "matchTopic (b\<lparr>key := ''a.#''\<rparr>) (m\<lparr>bp_RoutingKey := ''a.b''\<rparr>)"
    by (simp add: matchTopic_def)
  have e5: "matchTopic (b\<lparr>key := ''a.#''\<rparr>) (m\<lparr>bp_RoutingKey := ''a.b.c''\<rparr>)"
    by (simp add: matchTopic_def)
  have e6: "matchTopic (b\<lparr>key := ''#''\<rparr>) m'" for m'
    by (simp add: matchTopic_def words_match_hash_nil)
  show ?thesis
    using w e1 e2 e3 e4 e5 e6 [of m] e6 [of "m\<lparr>bp_RoutingKey := ''''\<rparr>"]
    by (simp only: matchTopic_def join_split_dots split_dots_no_dot words_match_Nil
        simp_thms)
qed

section \<open>Binding mutation\<close>

lemma distinct_remove_index: "distinct xs \<Longrightarrow> distinct (take i xs @ drop (i + 1) xs)"
  using set_take_disj_set_drop_if_distinct [of xs i "i + 1"] by simp

lemma list_ex_Equals: "list_ex (\<lambda>b. Equals binding b) bs = (binding \<in> set bs)"
  by (simp add: list_ex_iff Equals_iff)

lemma firstEqual_None: "(firstEqual binding bs = None) = (binding \<notin> set bs)"
  by (induction bs) (auto simp: Equals_iff)

lemma firstEqual_Some:
  "firstEqual binding bs = Some i \<Longrightarrow> i < length bs \<and> bs ! i = binding"
  by (induction bs arbitrary: i) (auto simp: Equals_iff split: if_splits)

lemma addBinding_present:
  "NewBinding (qb_Queue bindMethod) (qb_Exchange bindMethod) (qb_RoutingKey bindMethod)
     (qb_Arguments bindMethod) \<in> set (bindings exchange) \<Longrightarrow>
   addBinding bindMethod connId fromDisk exchange = (None, exchange)"
  by (simp add: addBinding_def list_ex_Equals)

lemma addBinding_absent:
  "NewBinding (qb_Queue bindMethod) (qb_Exchange bindMethod) (qb_RoutingKey bindMethod)
     (qb_Arguments bindMethod) \<notin> set (bindings exchange) \<Longrightarrow>
   addBinding bindMethod connId fromDisk exchange =
     (None, exchange\<lparr>deleteActive :=
                       (if autodelete exchange then time_Unix 0 0 else deleteActive exchange),
                     bindings := bindings exchange @
                       [NewBinding (qb_Queue bindMethod) (qb_Exchange bindMethod)
                          (qb_RoutingKey bindMethod) (qb_Arguments bindMethod)]\<rparr>)"
  by (simp add: addBinding_def list_ex_Equals Let_def)

lemma removeBinding_absent:
  "binding \<notin> set (bindings exchange) \<Longrightarrow>
   removeBinding queue binding exchange = (None, exchange)"
  using firstEqual_None [of binding "bindings exchange"] by (simp add: removeBinding_def)

lemma removeBinding_bindings:
  "firstEqual binding (bindings exchange) = Some i \<Longrightarrow>
   bindings (snd (removeBinding queue binding exchange)) =
     take i (bindings exchange) @ drop (i + 1) (bindings exchange)"
  by (simp add: removeBinding_def Let_def)

lemma removeBinding_distinct:
  "distinct (bindings exchange) \<Longrightarrow>
   distinct (bindings (snd (removeBinding queue binding exchange)))"
proof (cases "firstEqual binding (bindings exchange)")
  case None
  assume "distinct (bindings exchange)"
  then show ?thesis using None by (simp add: removeBinding_def)
next
  case (Some i)
  assume "distinct (bindings exchange)"
  then show ?thesis
    using removeBinding_bindings [OF Some, of queue]
      distinct_remove_index [of "bindings exchange" i] by simp
qed

text \<open>
  C3. The bindings of an exchange hold no binding twice, and every operation keeps it so:
  \<^verbatim>\<open>addBinding\<close>, \<^verbatim>\<open>removeBinding\<close> and \<^verbatim>\<open>removeBindingsForQueue\<close> leave a duplicate-free
  collection duplicate-free, and \<^verbatim>\<open>close\<close> and the timeout do not touch the collection.
  \<^verbatim>\<open>Equals\<close> is equality of the four fields. \<^verbatim>\<open>addBinding\<close> with a binding that is already
  stored returns \<^verbatim>\<open>nil\<close> and the exchange as it was, and otherwise appends the binding; so a
  second call with the same bindMethod changes nothing and the binding is stored exactly once.
\<close>

theorem bindings_no_duplicates:
  assumes "distinct (bindings exchange)"
  shows "distinct (bindings (snd (addBinding bindMethod connId fromDisk exchange)))
    \<and> distinct (bindings (snd (removeBinding queue binding exchange)))
    \<and> distinct (bindings (removeBindingsForQueue q exchange))
    \<and> bindings (close exchange) = bindings exchange
    \<and> bindings (autodeleteTimeout now sleep exchange) =
        bindings (sleep (exchange\<lparr>deleteActive := now\<rparr>))
    \<and> Equals b1 b2 = (b1 = b2)
    \<and> addBinding bindMethod connId fromDisk exchange =
        (if NewBinding (qb_Queue bindMethod) (qb_Exchange bindMethod) (qb_RoutingKey bindMethod)
              (qb_Arguments bindMethod) \<in> set (bindings exchange)
         then (None, exchange)
         else (None, exchange\<lparr>deleteActive :=
                       (if autodelete exchange then time_Unix 0 0 else deleteActive exchange),
                     bindings := bindings exchange @
                       [NewBinding (qb_Queue bindMethod) (qb_Exchange bindMethod)
                          (qb_RoutingKey bindMethod) (qb_Arguments bindMethod)]\<rparr>))
    \<and> addBinding bindMethod connId' fromDisk'
          (snd (addBinding bindMethod connId fromDisk exchange)) =
        (None, snd (addBinding bindMethod connId fromDisk exchange))
    \<and> length (filter
          (\<lambda>b. b = NewBinding (qb_Queue bindMethod) (qb_Exchange bindMethod) (qb_RoutingKey bindMethod)
                      (qb_Arguments bindMethod))
          (bindings (snd (addBinding bindMethod connId' fromDisk'
             (snd (addBinding bindMethod connId fromDisk exchange)))))) = 1"
proof -
  define new where "new = NewBinding (qb_Queue bindMethod) (qb_Exchange bindMethod)
    (qb_RoutingKey bindMethod) (qb_Arguments bindMethod)"
  define ex1 where "ex1 = snd (addBinding bindMethod connId fromDisk exchange)"
  have a: "addBinding bindMethod connId fromDisk exchange =
        (if new \<in> set (bindings exchange)
         then (None, exchange)
         else (None, exchange\<lparr>deleteActive :=
                       (if autodelete exchange then time_Unix 0 0 else deleteActive exchange),
                     bindings := bindings exchange @ [new]\<rparr>))"
    unfolding new_def using addBinding_present addBinding_absent by simp
  have in1: "new \<in> set (bindings ex1)"
    unfolding ex1_def using a by simp
  have d1: "distinct (bindings ex1)"
    unfolding ex1_def using a assms by simp
  have twice: "addBinding bindMethod connId' fromDisk' ex1 = (None, ex1)"
    using in1 addBinding_present unfolding new_def by simp
  have cnt: "length (filter (\<lambda>b. b = new) (bindings ex1)) = 1"
    using d1 in1 by (simp add: distinct_length_filter)
  have r: "distinct (bindings (snd (removeBinding queue binding exchange)))"
    using assms by (rule removeBinding_distinct)
  have q: "distinct (bindings (removeBindingsForQueue q exchange))"
    using assms by (simp add: removeBindingsForQueue_def)
  have c: "bindings (close exchange) = bindings exchange"
    by (simp add: close_def)
  have t: "bindings (autodeleteTimeout now sleep exchange) =
        bindings (sleep (exchange\<lparr>deleteActive := now\<rparr>))"
    by (simp add: autodeleteTimeout_def Let_def)
  show ?thesis
    using a d1 twice cnt r q c t Equals_iff [of b1 b2]
    unfolding new_def [symmetric] ex1_def [symmetric] by simp
qed

theorem bindings_no_duplicates_witness:
  "let ex = \<lparr>name = ''ex-1'', extype = 3, durable = False, autodelete = True,
              internal = False, arguments = [], system = False,
              bindings = [NewBinding ''q-0'' ''ex-1'' ''x.*'' []],
              closed = False, deleteActive = 5, deleteChan = [], timeoutsStarted = 0\<rparr>;
       m = \<lparr>qb_Queue = ''q-1'', qb_Exchange = ''ex-1'', qb_RoutingKey = ''x.y'',
            qb_Arguments = []\<rparr>
   in distinct (bindings ex) \<and>
      bindings (snd (addBinding m 1 False (snd (addBinding m 1 False ex)))) =
        [NewBinding ''q-0'' ''ex-1'' ''x.*'' [], NewBinding ''q-1'' ''ex-1'' ''x.y'' []]"
  using bindings_no_duplicates
    [where exchange = "\<lparr>name = ''ex-1'', extype = 3, durable = False, autodelete = True,
              internal = False, arguments = [], system = False,
              bindings = [NewBinding ''q-0'' ''ex-1'' ''x.*'' []],
              closed = False, deleteActive = 5, deleteChan = [], timeoutsStarted = 0\<rparr>"
       and bindMethod = "\<lparr>qb_Queue = ''q-1'', qb_Exchange = ''ex-1'', qb_RoutingKey = ''x.y'',
            qb_Arguments = []\<rparr>"]
  by (simp add: addBinding_def NewBinding_def Equals_def EquivalentTables_def Let_def)

section \<open>The auto-delete timeout\<close>

lemma removeBinding_emptied:
  assumes "bindings exchange \<noteq> []"
    and "bindings (snd (removeBinding queue binding exchange)) = []"
  shows "removeBinding queue binding exchange =
           (None, exchange\<lparr>bindings := [],
              timeoutsStarted :=
                (if autodelete exchange then timeoutsStarted exchange + 1
                 else timeoutsStarted exchange)\<rparr>)"
proof (cases "firstEqual binding (bindings exchange)")
  case None
  then show ?thesis using assms by (simp add: removeBinding_def)
next
  case (Some i)
  then have "take i (bindings exchange) @ drop (i + 1) (bindings exchange) = []"
    using removeBinding_bindings [OF Some, of queue] assms(2) by simp
  then show ?thesis using Some by (simp add: removeBinding_def Let_def)
qed

text \<open>
  C7, as the code has it. On an auto-delete exchange, let \<^verbatim>\<open>removeBinding\<close> remove the last
  binding: it starts one timeout and does not write the marker itself; the timeout writes
  it when it runs. Let the timeout record its clock reading as the marker, and let
  \<^verbatim>\<open>addBinding\<close> run after that, while the timeout sleeps: the binding is appended (the
  collection was empty) and the marker is reset to the epoch. If the clock reading was not
  the epoch instant itself, the timeout then finds the marker changed and sends nothing on
  \<^verbatim>\<open>deleteChan\<close>. With nothing happening during the sleep the same timeout does send the
  exchange.
\<close>

theorem autodelete_readd_cancels:
  assumes "autodelete exchange"
    and "bindings exchange \<noteq> []"
    and "bindings (snd (removeBinding queue binding exchange)) = []"
    and "now \<noteq> time_Unix 0 0"
  shows "timeoutsStarted (snd (removeBinding queue binding exchange)) =
           timeoutsStarted exchange + 1
    \<and> deleteActive (snd (removeBinding queue binding exchange)) = deleteActive exchange
    \<and> deleteChan (autodeleteTimeout now (\<lambda>e. snd (addBinding bindMethod connId fromDisk e))
          (snd (removeBinding queue binding exchange))) = deleteChan exchange
    \<and> deleteActive (autodeleteTimeout now (\<lambda>e. snd (addBinding bindMethod connId fromDisk e))
          (snd (removeBinding queue binding exchange))) = time_Unix 0 0
    \<and> bindings (autodeleteTimeout now (\<lambda>e. snd (addBinding bindMethod connId fromDisk e))
          (snd (removeBinding queue binding exchange))) =
        [NewBinding (qb_Queue bindMethod) (qb_Exchange bindMethod) (qb_RoutingKey bindMethod)
           (qb_Arguments bindMethod)]
    \<and> deleteChan (autodeleteTimeout now (\<lambda>e. e)
          (snd (removeBinding queue binding exchange))) = deleteChan exchange @ [name exchange]"
proof -
  define ex1 where "ex1 = snd (removeBinding queue binding exchange)"
  have e1: "ex1 = exchange\<lparr>bindings := [], timeoutsStarted := timeoutsStarted exchange + 1\<rparr>"
    unfolding ex1_def using removeBinding_emptied [OF assms(2,3)] assms(1) by simp
  have add: "snd (addBinding bindMethod connId fromDisk (ex1\<lparr>deleteActive := now\<rparr>)) =
      ex1\<lparr>deleteActive := time_Unix 0 0,
          bindings := [NewBinding (qb_Queue bindMethod) (qb_Exchange bindMethod)
                         (qb_RoutingKey bindMethod) (qb_Arguments bindMethod)]\<rparr>"
    using assms(1) by (simp add: e1 addBinding_def Let_def)
  show ?thesis
    unfolding ex1_def [symmetric]
    using assms(4) add by (simp add: autodeleteTimeout_def Let_def e1)
qed

theorem autodelete_readd_cancels_witness:
  "let ex = \<lparr>name = ''ex-1'', extype = 1, durable = False, autodelete = True,
              internal = False, arguments = [], system = False,
              bindings = [NewBinding ''q-1'' ''ex-1'' ''x.y'' []],
              closed = False, deleteActive = 0, deleteChan = [], timeoutsStarted = 0\<rparr>;
       m = \<lparr>qb_Queue = ''q-2'', qb_Exchange = ''ex-1'', qb_RoutingKey = ''x.z'',
            qb_Arguments = []\<rparr>;
       ex1 = snd (removeBinding () (NewBinding ''q-1'' ''ex-1'' ''x.y'' []) ex)
   in autodelete ex \<and> bindings ex \<noteq> [] \<and> bindings ex1 = [] \<and>
      (1700000000000000000 :: int) \<noteq> time_Unix 0 0 \<and>
      timeoutsStarted ex1 = 1 \<and>
      deleteChan (autodeleteTimeout 1700000000000000000
        (\<lambda>e. snd (addBinding m 1 False e)) ex1) = [] \<and>
      deleteChan (autodeleteTimeout 1700000000000000000 (\<lambda>e. e) ex1) = [''ex-1'']"
  using autodelete_readd_cancels
    [where exchange = "\<lparr>name = ''ex-1'', extype = 1, durable = False, autodelete = True,
              internal = False, arguments = [], system = False,
              bindings = [NewBinding ''q-1'' ''ex-1'' ''x.y'' []],
              closed = False, deleteActive = 0, deleteChan = [], timeoutsStarted = 0\<rparr>"
       and bindMethod = "\<lparr>qb_Queue = ''q-2'', qb_Exchange = ''ex-1'', qb_RoutingKey = ''x.z'',
            qb_Arguments = []\<rparr>"
       and queue = "()" and binding = "NewBinding ''q-1'' ''ex-1'' ''x.y'' []"
       and now = 1700000000000000000 and connId = 1 and fromDisk = False]
  by (simp add: removeBinding_def addBinding_def autodeleteTimeout_def NewBinding_def
      Equals_def EquivalentTables_def time_Unix_def Let_def)

text \<open>
  The other order: \<^verbatim>\<open>removeBinding\<close> empties the exchange and starts the timeout,
  \<^verbatim>\<open>addBinding\<close> appends a binding before the timeout has written its marker, and then the
  timeout runs with nothing else happening. The exchange is sent on \<^verbatim>\<open>deleteChan\<close> although
  it has a binding again.
\<close>

theorem autodelete_readd_counterexample:
  "autodelete
     \<lparr>name = ''ex-1'', extype = 1, durable = False, autodelete = True,
      internal = False, arguments = [], system = False,
      bindings = [NewBinding ''q-1'' ''ex-1'' ''x.y'' []],
      closed = False, deleteActive = 0, deleteChan = [], timeoutsStarted = 0\<rparr> \<and>
   snd (removeBinding () (NewBinding ''q-1'' ''ex-1'' ''x.y'' [])
     \<lparr>name = ''ex-1'', extype = 1, durable = False, autodelete = True,
      internal = False, arguments = [], system = False,
      bindings = [NewBinding ''q-1'' ''ex-1'' ''x.y'' []],
      closed = False, deleteActive = 0, deleteChan = [], timeoutsStarted = 0\<rparr>) =
     \<lparr>name = ''ex-1'', extype = 1, durable = False, autodelete = True,
      internal = False, arguments = [], system = False, bindings = [],
      closed = False, deleteActive = 0, deleteChan = [], timeoutsStarted = 1\<rparr> \<and>
   snd (addBinding
          \<lparr>qb_Queue = ''q-2'', qb_Exchange = ''ex-1'', qb_RoutingKey = ''x.z'',
           qb_Arguments = []\<rparr> 1 False
     \<lparr>name = ''ex-1'', extype = 1, durable = False, autodelete = True,
      internal = False, arguments = [], system = False, bindings = [],
      closed = False, deleteActive = 0, deleteChan = [], timeoutsStarted = 1\<rparr>) =
     \<lparr>name = ''ex-1'', extype = 1, durable = False, autodelete = True,
      internal = False, arguments = [], system = False,
      bindings = [NewBinding ''q-2'' ''ex-1'' ''x.z'' []],
      closed = False, deleteActive = 0, deleteChan = [], timeoutsStarted = 1\<rparr> \<and>
   (1700000000000000000 :: int) \<noteq> time_Unix 0 0 \<and>
   autodeleteTimeout 1700000000000000000 id
     \<lparr>name = ''ex-1'', extype = 1, durable = False, autodelete = True,
      internal = False, arguments = [], system = False,
      bindings = [NewBinding ''q-2'' ''ex-1'' ''x.z'' []],
      closed = False, deleteActive = 0, deleteChan = [], timeoutsStarted = 1\<rparr> =
     \<lparr>name = ''ex-1'', extype = 1, durable = False, autodelete = True,
      internal = False, arguments = [], system = False,
      bindings = [NewBinding ''q-2'' ''ex-1'' ''x.z'' []],
      closed = False, deleteActive = 1700000000000000000, deleteChan = [''ex-1''],
      timeoutsStarted = 1\<rparr>"
  by (simp add: removeBinding_def addBinding_def autodeleteTimeout_def NewBinding_def
      Equals_def EquivalentTables_def time_Unix_def Let_def)

text \<open>
  C8. \<^verbatim>\<open>addBinding\<close> and \<^verbatim>\<open>removeBinding\<close> return a \<^verbatim>\<open>nil\<close> error on every input. On an
  exchange that does not store the given binding, \<^verbatim>\<open>removeBinding\<close> also leaves the
  exchange as it was.
\<close>

theorem binding_mutations_return_nil:
  "fst (addBinding bindMethod connId fromDisk exchange) = None
   \<and> fst (removeBinding queue binding exchange) = None
   \<and> removeBinding queue binding
        (exchange\<lparr>bindings := filter (\<lambda>b. b \<noteq> binding) (bindings exchange)\<rparr>) =
      (None, exchange\<lparr>bindings := filter (\<lambda>b. b \<noteq> binding) (bindings exchange)\<rparr>)"
proof -
  have a: "fst (addBinding bindMethod connId fromDisk exchange) = None"
    by (simp add: addBinding_def Let_def)
  have r: "fst (removeBinding queue binding exchange) = None"
    by (simp add: removeBinding_def Let_def split: option.splits)
  have n: "removeBinding queue binding
        (exchange\<lparr>bindings := filter (\<lambda>b. b \<noteq> binding) (bindings exchange)\<rparr>) =
      (None, exchange\<lparr>bindings := filter (\<lambda>b. b \<noteq> binding) (bindings exchange)\<rparr>)"
    by (rule removeBinding_absent) simp
  show ?thesis using a r n by simp
qed

lemma remove_index_Nil:
  "i < length xs \<Longrightarrow> (take i xs @ drop (i + 1) xs = []) = (length xs = 1)"
  by (cases xs) auto

lemma removeBinding_timeouts:
  "timeoutsStarted (snd (removeBinding queue binding exchange)) =
     (if autodelete exchange \<and> bindings exchange = [binding]
      then timeoutsStarted exchange + 1 else timeoutsStarted exchange)"
proof (cases "firstEqual binding (bindings exchange)")
  case None
  then have "binding \<notin> set (bindings exchange)" by (simp add: firstEqual_None)
  then have "bindings exchange \<noteq> [binding]" by auto
  then show ?thesis using None by (simp add: removeBinding_def)
next
  case (Some i)
  then have i: "i < length (bindings exchange)" "bindings exchange ! i = binding"
    using firstEqual_Some by auto
  have "(take i (bindings exchange) @ drop (i + 1) (bindings exchange) = []) =
          (bindings exchange = [binding])"
  proof
    assume "take i (bindings exchange) @ drop (i + 1) (bindings exchange) = []"
    then have "length (bindings exchange) = 1" using remove_index_Nil [OF i(1)] by simp
    then show "bindings exchange = [binding]"
      using i by (cases "bindings exchange") auto
  next
    assume "bindings exchange = [binding]"
    then show "take i (bindings exchange) @ drop (i + 1) (bindings exchange) = []"
      using i(1) by simp
  qed
  then show ?thesis using Some by (simp add: removeBinding_def Let_def)
qed

text \<open>
  C9. \<^verbatim>\<open>removeBindingsForQueue\<close> keeps the bindings of the other queues and changes
  nothing else: not the \<^verbatim>\<open>deleteActive\<close> marker, not the number of timeouts started, not
  \<^verbatim>\<open>deleteChan\<close>, whatever is left of the collection. \<^verbatim>\<open>addBinding\<close>, \<^verbatim>\<open>close\<close> and a
  running timeout start no timeout either. \<^verbatim>\<open>removeBinding\<close> does not write the marker
  itself, and starts a timeout exactly when the exchange is auto-delete and the binding it
  removes was the only one.
\<close>

theorem removeBindingsForQueue_no_timeout:
  "deleteActive (removeBindingsForQueue q exchange) = deleteActive exchange
   \<and> timeoutsStarted (removeBindingsForQueue q exchange) = timeoutsStarted exchange
   \<and> deleteChan (removeBindingsForQueue q exchange) = deleteChan exchange
   \<and> bindings (removeBindingsForQueue q exchange) =
       filter (\<lambda>b. queueName b \<noteq> q) (bindings exchange)
   \<and> timeoutsStarted (snd (addBinding bindMethod connId fromDisk exchange)) =
       timeoutsStarted exchange
   \<and> timeoutsStarted (close exchange) = timeoutsStarted exchange
   \<and> timeoutsStarted (autodeleteTimeout now (\<lambda>e. e) exchange) = timeoutsStarted exchange
   \<and> deleteActive (snd (removeBinding queue binding exchange)) = deleteActive exchange
   \<and> timeoutsStarted (snd (removeBinding queue binding exchange)) =
       (if autodelete exchange \<and> bindings exchange = [binding]
        then timeoutsStarted exchange + 1 else timeoutsStarted exchange)"
proof -
  have a: "timeoutsStarted (snd (addBinding bindMethod connId fromDisk exchange)) =
       timeoutsStarted exchange"
    by (simp add: addBinding_def Let_def)
  have d: "deleteActive (snd (removeBinding queue binding exchange)) = deleteActive exchange"
    by (simp add: removeBinding_def Let_def split: option.splits)
  show ?thesis
    using a d removeBinding_timeouts [of queue binding exchange]
    by (simp add: removeBindingsForQueue_def close_def autodeleteTimeout_def Let_def)
qed

theorem removeBindingsForQueue_no_timeout_witness:
  "let ex = \<lparr>name = ''ex-1'', extype = 1, durable = False, autodelete = True,
              internal = False, arguments = [], system = False,
              bindings = [NewBinding ''q-1'' ''ex-1'' ''x.y'' []],
              closed = False, deleteActive = 7, deleteChan = [], timeoutsStarted = 0\<rparr>
   in autodelete ex \<and>
      bindings (removeBindingsForQueue ''q-1'' ex) = [] \<and>
      timeoutsStarted (removeBindingsForQueue ''q-1'' ex) = 0 \<and>
      deleteActive (removeBindingsForQueue ''q-1'' ex) = 7 \<and>
      bindings (snd (removeBinding () (NewBinding ''q-1'' ''ex-1'' ''x.y'' []) ex)) = [] \<and>
      timeoutsStarted (snd (removeBinding () (NewBinding ''q-1'' ''ex-1'' ''x.y'' []) ex)) = 1"
  using removeBindingsForQueue_no_timeout
    [where exchange = "\<lparr>name = ''ex-1'', extype = 1, durable = False, autodelete = True,
              internal = False, arguments = [], system = False,
              bindings = [NewBinding ''q-1'' ''ex-1'' ''x.y'' []],
              closed = False, deleteActive = 7, deleteChan = [], timeoutsStarted = 0\<rparr>"
       and q = "''q-1''" and queue = "()"
       and binding = "NewBinding ''q-1'' ''ex-1'' ''x.y'' []"]
  by (simp add: removeBinding_def removeBindingsForQueue_def NewBinding_def
      Equals_def EquivalentTables_def Let_def)

text \<open>
  C10. On an auto-delete exchange, \<^verbatim>\<open>addBinding\<close> with a binding that is already stored
  returns the exchange unchanged, the \<^verbatim>\<open>deleteActive\<close> marker included. For any bindMethod, the
  marker after \<^verbatim>\<open>addBinding\<close> is the epoch when the binding was appended and the old marker
  when it was not.
\<close>

theorem addBinding_duplicate_keeps_marker:
  assumes "autodelete exchange"
    and "NewBinding (qb_Queue bindMethod) (qb_Exchange bindMethod) (qb_RoutingKey bindMethod)
           (qb_Arguments bindMethod) \<in> set (bindings exchange)"
  shows "addBinding bindMethod connId fromDisk exchange = (None, exchange)
    \<and> deleteActive (snd (addBinding bindMethod connId fromDisk exchange)) = deleteActive exchange
    \<and> (deleteActive (snd (addBinding bindMethod' connId fromDisk exchange)) =
         (if NewBinding (qb_Queue bindMethod') (qb_Exchange bindMethod') (qb_RoutingKey bindMethod')
               (qb_Arguments bindMethod') \<in> set (bindings exchange)
          then deleteActive exchange else time_Unix 0 0))
    \<and> (bindings (snd (addBinding bindMethod' connId fromDisk exchange)) =
         (if NewBinding (qb_Queue bindMethod') (qb_Exchange bindMethod') (qb_RoutingKey bindMethod')
               (qb_Arguments bindMethod') \<in> set (bindings exchange)
          then bindings exchange
          else bindings exchange @
               [NewBinding (qb_Queue bindMethod') (qb_Exchange bindMethod') (qb_RoutingKey bindMethod')
                  (qb_Arguments bindMethod')]))"
proof -
  have p: "addBinding bindMethod connId fromDisk exchange = (None, exchange)"
    using assms(2) by (rule addBinding_present)
  have g: "addBinding bindMethod' connId fromDisk exchange =
     (if NewBinding (qb_Queue bindMethod') (qb_Exchange bindMethod') (qb_RoutingKey bindMethod')
               (qb_Arguments bindMethod') \<in> set (bindings exchange)
      then (None, exchange)
      else (None, exchange\<lparr>deleteActive := time_Unix 0 0,
                     bindings := bindings exchange @
                       [NewBinding (qb_Queue bindMethod') (qb_Exchange bindMethod')
                          (qb_RoutingKey bindMethod') (qb_Arguments bindMethod')]\<rparr>))"
    using assms(1) addBinding_present [of bindMethod' exchange connId fromDisk]
      addBinding_absent [of bindMethod' exchange connId fromDisk] by simp
  show ?thesis using p g by simp
qed

theorem addBinding_duplicate_keeps_marker_witness:
  "let ex = \<lparr>name = ''ex-1'', extype = 1, durable = False, autodelete = True,
              internal = False, arguments = [], system = False,
              bindings = [NewBinding ''q-1'' ''ex-1'' ''x.y'' []],
              closed = False, deleteActive = 1700000000000000000, deleteChan = [],
              timeoutsStarted = 1\<rparr>;
       m = \<lparr>qb_Queue = ''q-1'', qb_Exchange = ''ex-1'', qb_RoutingKey = ''x.y'',
            qb_Arguments = []\<rparr>;
       m' = \<lparr>qb_Queue = ''q-2'', qb_Exchange = ''ex-1'', qb_RoutingKey = ''x.y'',
            qb_Arguments = []\<rparr>
   in autodelete ex \<and>
      NewBinding (qb_Queue m) (qb_Exchange m) (qb_RoutingKey m) (qb_Arguments m)
        \<in> set (bindings ex) \<and>
      deleteActive (snd (addBinding m 1 False ex)) = 1700000000000000000 \<and>
      deleteActive (snd (addBinding m' 1 False ex)) = 0"
  using addBinding_duplicate_keeps_marker
    [where exchange = "\<lparr>name = ''ex-1'', extype = 1, durable = False, autodelete = True,
              internal = False, arguments = [], system = False,
              bindings = [NewBinding ''q-1'' ''ex-1'' ''x.y'' []],
              closed = False, deleteActive = 1700000000000000000, deleteChan = [],
              timeoutsStarted = 1\<rparr>"
       and bindMethod = "\<lparr>qb_Queue = ''q-1'', qb_Exchange = ''ex-1'', qb_RoutingKey = ''x.y'',
            qb_Arguments = []\<rparr>"
       and bindMethod' = "\<lparr>qb_Queue = ''q-2'', qb_Exchange = ''ex-1'', qb_RoutingKey = ''x.y'',
            qb_Arguments = []\<rparr>"
       and connId = 1 and fromDisk = False]
  by (simp add: addBinding_def NewBinding_def Equals_def EquivalentTables_def
      time_Unix_def Let_def)

section \<open>The connection: frames before Open\<close>

text \<open>
  C5, as the code has it. A frame on a nonzero channel that arrives before the connection
  is open never creates a channel and is never dispatched: the channel table is unchanged.
  If its type is not 8 (heartbeat) the connection is hard-closed: the network stream is
  closed. A frame of type 8 returns before that check, after the refresh of the deadline,
  and leaves the network stream as it was.
\<close>

theorem handleFrame_unopened_nonzero:
  assumes "Channel frame \<noteq> 0"
    and "\<not> status_open (connectStatus conn)"
  shows "channels (handleFrame now frame conn) = channels conn
    \<and> network (handleFrame now frame conn) =
        (if FrameType frame = 8 then network conn else network_Close (network conn))
    \<and> net_closed (network (handleFrame now frame conn)) =
        (if FrameType frame = 8 then net_closed (network conn) else True)
    \<and> handleFrame now frame conn =
        (if FrameType frame = 8
         then conn\<lparr>ttl := time_Add now (receiveHeartbeatInterval conn * 2)\<rparr>
         else hardClose (conn\<lparr>ttl := time_Add now (receiveHeartbeatInterval conn * 2)\<rparr>))"
  using assms by (simp add: handleFrame_def hardClose_def network_Close_def Let_def)

theorem handleFrame_unopened_nonzero_witness:
  "let conn = NewAMQPConnection 1 \<lparr>inbound = [], outbound = [], net_closed = False\<rparr>;
       frame = \<lparr>FrameType = 1, Channel = 5, Payload = []\<rparr>
   in Channel frame \<noteq> 0 \<and> \<not> status_open (connectStatus conn) \<and>
      net_closed (network (handleFrame 0 frame conn)) \<and>
      channels (handleFrame 0 frame conn) 5 = None"
  using handleFrame_unopened_nonzero
    [where conn = "NewAMQPConnection 1 \<lparr>inbound = [], outbound = [], net_closed = False\<rparr>"
       and frame = "\<lparr>FrameType = 1, Channel = 5, Payload = []\<rparr>" and now = 0]
  by (simp add: NewAMQPConnection_def handleFrame_def hardClose_def network_Close_def Let_def)

theorem handleFrame_heartbeat_counterexample:
  "Channel \<lparr>FrameType = 8, Channel = 5, Payload = []\<rparr> \<noteq> 0 \<and>
   \<not> status_open (connectStatus
        (NewAMQPConnection 1 \<lparr>inbound = [], outbound = [], net_closed = False\<rparr>)) \<and>
   \<not> net_closed (network (handleFrame 0 \<lparr>FrameType = 8, Channel = 5, Payload = []\<rparr>
        (NewAMQPConnection 1 \<lparr>inbound = [], outbound = [], net_closed = False\<rparr>)))"
  by (simp add: NewAMQPConnection_def handleFrame_def Let_def)

section \<open>The protocol header\<close>

lemma length_supported: "length supported = 8"
  by (simp add: supported_def)

lemma openConnection_read:
  assumes "\<not> net_closed (network conn)" and "inbound (network conn) = piece # rest"
  shows "network_Read 8 (network conn) =
           (Inr (take 8 piece),
            (network conn)\<lparr>inbound := (if drop 8 piece = [] then rest
                                         else drop 8 piece # rest)\<rparr>)"
  using assms by (simp add: network_Read_def)

lemma openConnection_short_read:
  assumes "\<not> net_closed (network conn)" and "inbound (network conn) = piece # rest"
    and "length piece < 8"
  shows "openConnection decode nows conn =
           Some (conn\<lparr>network := \<lparr>inbound = rest,
                                     outbound = outbound (network conn) @ supported,
                                     net_closed = True\<rparr>\<rparr>)"
proof -
  define buf where "buf = take 8 piece @ replicate (8 - length (take 8 piece)) (0 :: 8 word)"
  have "buf ! 7 = 0"
    using assms(3) by (simp add: buf_def nth_append)
  moreover have "supported ! 7 = 1"
    by (simp add: supported_def)
  ultimately have ne: "buf \<noteq> supported" by auto
  show ?thesis
    using assms(1,3) ne
    by (simp add: openConnection_def openConnection_read [OF assms(1,2)] Let_def
        hardClose_def network_Write_def network_Close_def buf_def)
qed

lemma openConnection_mismatch:
  assumes "\<not> net_closed (network conn)" and "inbound (network conn) = piece # rest"
    and "8 \<le> length piece" and "take 8 piece \<noteq> supported"
  shows "openConnection decode nows conn =
           Some (conn\<lparr>network :=
                   \<lparr>inbound = (if drop 8 piece = [] then rest else drop 8 piece # rest),
                    outbound = outbound (network conn) @ supported,
                    net_closed = True\<rparr>\<rparr>)"
  using assms(1,3,4)
  by (simp add: openConnection_def openConnection_read [OF assms(1,2)] Let_def
      hardClose_def network_Write_def network_Close_def)

lemma openConnection_match:
  assumes "\<not> net_closed (network conn)" and "inbound (network conn) = piece # rest"
    and "take 8 piece = supported"
  shows "openConnection decode nows conn =
           handleIncoming decode nows
             (conn\<lparr>network := (network conn)
                     \<lparr>inbound := (if drop 8 piece = [] then rest else drop 8 piece # rest)\<rparr>,
                   channels := (channels conn)
                     (0 \<mapsto> \<lparr>channel_id = 0, incoming = [], started = True\<rparr>),
                   outgoingStarted := True\<rparr>)"
  using assms(1,3)
  by (simp add: openConnection_def openConnection_read [OF assms(1,2)] Let_def
      handleOutgoing_def channel_start_def NewChannel_def length_supported)

text \<open>
  C6, at a signature that arrives in two pieces. The peer sends the eight bytes
  \<^verbatim>\<open>A M Q P 0 0 9 1\<close>; the stream delivers the first four to the one \<^verbatim>\<open>Read\<close> of
  \<^verbatim>\<open>openConnection\<close> and holds the other four. The buffer is then \<^verbatim>\<open>A M Q P 0 0 0 0\<close>:
  the signature is written back, the stream is closed, no channel is created, and four
  bytes stay unread. The same eight bytes delivered in one piece are all read, channel 0
  is created and started, and frame handling goes on from the rest of the stream.
\<close>

theorem openConnection_split_signature:
  "[65, 77, 81, 80] @ [0, 0, 9, 1] = supported \<and>
   openConnection decode nows
     (NewAMQPConnection 1
        \<lparr>inbound = [[65, 77, 81, 80], [0, 0, 9, 1]], outbound = [], net_closed = False\<rparr>) =
   Some ((NewAMQPConnection 1
        \<lparr>inbound = [[65, 77, 81, 80], [0, 0, 9, 1]], outbound = [], net_closed = False\<rparr>)
      \<lparr>network := \<lparr>inbound = [[0, 0, 9, 1]], outbound = [65, 77, 81, 80, 0, 0, 9, 1],
                    net_closed = True\<rparr>\<rparr>) \<and>
   openConnection decode nows
     (NewAMQPConnection 1
        \<lparr>inbound = [[65, 77, 81, 80, 0, 0, 9, 1]], outbound = [], net_closed = False\<rparr>) =
   handleIncoming decode nows
     ((NewAMQPConnection 1
        \<lparr>inbound = [[65, 77, 81, 80, 0, 0, 9, 1]], outbound = [], net_closed = False\<rparr>)
      \<lparr>network := \<lparr>inbound = [], outbound = [], net_closed = False\<rparr>,
        channels := [0 \<mapsto> \<lparr>channel_id = 0, incoming = [], started = True\<rparr>],
        outgoingStarted := True\<rparr>)"
proof -
  define split where "split = NewAMQPConnection 1
        \<lparr>inbound = [[65, 77, 81, 80], [0, 0, 9, 1]], outbound = [], net_closed = False\<rparr>"
  define whole where "whole = NewAMQPConnection 1
        \<lparr>inbound = [[65, 77, 81, 80, 0, 0, 9, 1]], outbound = [], net_closed = False\<rparr>"
  have s1: "\<not> net_closed (network split)"
    by (simp add: split_def NewAMQPConnection_def)
  have s2: "inbound (network split) = [65, 77, 81, 80] # [[0, 0, 9, 1]]"
    by (simp add: split_def NewAMQPConnection_def)
  have s3: "outbound (network split) = []"
    by (simp add: split_def NewAMQPConnection_def)
  have s: "openConnection decode nows split =
      Some (split\<lparr>network := \<lparr>inbound = [[0, 0, 9, 1]],
                                 outbound = [65, 77, 81, 80, 0, 0, 9, 1],
                                 net_closed = True\<rparr>\<rparr>)"
    using openConnection_short_read [OF s1 s2, of decode nows] s3
    by (simp add: supported_def)
  have w1: "\<not> net_closed (network whole)"
    by (simp add: whole_def NewAMQPConnection_def)
  have w2: "inbound (network whole) = [65, 77, 81, 80, 0, 0, 9, 1] # []"
    by (simp add: whole_def NewAMQPConnection_def)
  have w3: "network whole =
      \<lparr>inbound = [[65, 77, 81, 80, 0, 0, 9, 1]], outbound = [], net_closed = False\<rparr>"
    by (simp add: whole_def NewAMQPConnection_def)
  have w4: "channels whole = Map.empty"
    by (simp add: whole_def NewAMQPConnection_def)
  have w: "openConnection decode nows whole =
      handleIncoming decode nows
        (whole\<lparr>network := \<lparr>inbound = [], outbound = [], net_closed = False\<rparr>,
           channels := [0 \<mapsto> \<lparr>channel_id = 0, incoming = [], started = True\<rparr>],
           outgoingStarted := True\<rparr>)"
    using openConnection_match [OF w1 w2, of decode nows] w3 w4
    by (simp add: supported_def)
  have e: "[65, 77, 81, 80] @ [0, 0, 9, 1] = supported"
    by (simp add: supported_def)
  show ?thesis
    using s w e unfolding split_def whole_def by blast
qed

end
